theory Spec2Isabelle
  imports Complex_Main
begin

section \<open>The data model of \<^verbatim>\<open>data/data_preprocess.py\<close>\<close>

text \<open>
  The script is four statements over a pandas DataFrame:
  \<^verbatim>\<open>
  df = pd.read_csv(".../survey_results_public.csv")
  columns_for_viz = ["Age", ..., "AISelect"]
  df = df[columns_for_viz]
  df_clean = df.dropna(subset=["Age", ..., "AISelect"])
  df_clean.to_json('./project-dataset/data.json', orient='records', indent=2)
  \<close>
  A cell of a frame is missing (\<open>NaN\<close>), a string, or a number. Selecting columns and
  dropping rows never look into a number, so its type is the parameter \<open>'n\<close> there;
  \<open>Number\<close> holds the finite numbers. Writing the document does look into it: there the
  numbers are rationals, which every finite float64 and int64 value is. A float that is
  not finite (\<^verbatim>\<open>inf\<close>, which \<^verbatim>\<open>to_json\<close> writes as \<open>null\<close>) is not a cell of the model.
\<close>

datatype 'n cell = NaN | Str string | Number 'n

text \<open>\<^verbatim>\<open>pd.isna\<close> on one cell, and its negation \<^verbatim>\<open>pd.notna\<close>. An empty string is a
  value like any other: it is not missing.\<close>

fun isna :: "'n cell \<Rightarrow> bool" where
  "isna NaN = True"
| "isna (Str s) = False"
| "isna (Number n) = False"

definition notna :: "'n cell \<Rightarrow> bool" where
  "notna c = (\<not> isna c)"

text \<open>
  A frame is its column labels, in order, and its rows, in order; a row lists one cell per
  column, by position. The row labels (the index) are left out: \<^verbatim>\<open>orient='records'\<close>
  does not write them.
\<close>

record 'n dataframe =
  columns :: "string list"
  rows :: "'n cell list list"

text \<open>The exceptions the three frame operations raise. A \<open>KeyError\<close> carries the labels
  that were not found.\<close>

datatype error = KeyError "string list" | ValueError

text \<open>The values of the document \<^verbatim>\<open>to_json\<close> writes: \<open>null\<close>, a JSON string, a JSON number.
  The document is an array of objects; an object lists its keys in order.\<close>

datatype 'n json = JNull | JString string | JNumber 'n

type_synonym 'n json_object = "(string \<times> 'n json) list"

section \<open>The constants of the script\<close>

definition columns_for_viz :: "string list" where
  "columns_for_viz =
     [''Age'', ''YearsCodePro'', ''Country'', ''Currency'', ''CompTotal'',
      ''ConvertedCompYearly'', ''LanguageHaveWorkedWith'', ''NEWCollabToolsHaveWorkedWith'',
      ''OpSysProfessional use'', ''AISelect'']"

text \<open>The list the script passes as \<^verbatim>\<open>subset=\<close> to \<^verbatim>\<open>dropna\<close> (line 6). It has nine
  labels: every label of \<open>columns_for_viz\<close> but \<open>ConvertedCompYearly\<close>.\<close>

definition dropna_subset :: "string list" where
  "dropna_subset =
     [''Age'', ''YearsCodePro'', ''Country'', ''Currency'', ''CompTotal'',
      ''LanguageHaveWorkedWith'', ''NEWCollabToolsHaveWorkedWith'',
      ''OpSysProfessional use'', ''AISelect'']"

section \<open>The frame operations\<close>

text \<open>\<^verbatim>\<open>Index.get_indexer_for\<close>: for each target label in turn, every position of the
  index that carries it, in increasing order. (A label that is absent contributes nothing
  here; both callers raise \<open>KeyError\<close> for it before they use the positions.)\<close>

definition get_indexer_for :: "string list \<Rightarrow> string list \<Rightarrow> nat list" where
  "get_indexer_for index targets =
     concat (map (\<lambda>t. filter (\<lambda>i. index ! i = t) [0..<length index]) targets)"

text \<open>\<^verbatim>\<open>DataFrame.take(indexer, axis=1)\<close>: the columns at the given positions.\<close>

definition take_columns :: "'n dataframe \<Rightarrow> nat list \<Rightarrow> 'n dataframe" where
  "take_columns df indexer =
     \<lparr>columns = map (\<lambda>i. columns df ! i) indexer,
      rows = map (\<lambda>r. map (\<lambda>i. r ! i) indexer) (rows df)\<rparr>"

text \<open>\<^verbatim>\<open>df[key]\<close> with a list of labels (line 5): \<open>KeyError\<close> with the missing labels if any
  is not a column, otherwise the columns found, in the order of the key.\<close>

definition getitem :: "'n dataframe \<Rightarrow> string list \<Rightarrow> error + 'n dataframe" where
  "getitem df key =
     (let missing = filter (\<lambda>k. k \<notin> set (columns df)) key in
      if missing \<noteq> [] then Inl (KeyError missing)
      else Inr (take_columns df (get_indexer_for (columns df) key)))"

text \<open>\<^verbatim>\<open>df.dropna(subset=...)\<close> with the defaults \<^verbatim>\<open>axis=0, how='any'\<close> (line 6):
  \<open>KeyError\<close> if a label of the subset is not a column; otherwise the mask of the rows whose
  cells in the subset's columns are all present, and the rows the mask selects, whole and
  in order.\<close>

definition dropna_mask :: "'n dataframe \<Rightarrow> nat list \<Rightarrow> bool list" where
  "dropna_mask df indices = map (\<lambda>r. list_all notna r) (rows (take_columns df indices))"

definition dropna :: "'n dataframe \<Rightarrow> string list \<Rightarrow> error + 'n dataframe" where
  "dropna df labels =
     (let missing = filter (\<lambda>k. k \<notin> set (columns df)) labels in
      if missing \<noteq> [] then Inl (KeyError missing)
      else
        let mask = dropna_mask df (get_indexer_for (columns df) labels)
        in Inr (df\<lparr>rows := map fst (filter snd (zip (rows df) mask))\<rparr>))"

text \<open>\<^verbatim>\<open>df.to_json(path, orient='records', indent=2)\<close> (line 7). The call leaves
  \<^verbatim>\<open>double_precision\<close> at its default, 10: the number of decimal places a number is written
  with. A number with more decimal places is written rounded to the tenth (at an exact tie
  the model rounds up; no property below rests on a tie).\<close>

definition double_precision :: nat where
  "double_precision = 10"

definition round_decimals :: "nat \<Rightarrow> rat \<Rightarrow> rat" where
  "round_decimals p x = rat_of_int (round (x * 10 ^ p)) / 10 ^ p"

text \<open>What \<^verbatim>\<open>to_json\<close> writes for a cell: \<open>null\<close> for a missing one, a string as it is, a
  number rounded to \<open>double_precision\<close> decimal places.\<close>

fun json_of :: "rat cell \<Rightarrow> rat json" where
  "json_of NaN = JNull"
| "json_of (Str s) = JString s"
| "json_of (Number x) = JNumber (round_decimals double_precision x)"

text \<open>The call itself: \<open>ValueError\<close> if two columns share a label; otherwise one object per
  row, in order, with the column labels as keys in column order. The model stops at the
  document: its layout as text (the indentation) and the write to the file are below it.\<close>

definition to_json :: "rat dataframe \<Rightarrow> error + rat json_object list" where
  "to_json df =
     (if distinct (columns df)
      then Inr (map (\<lambda>r. zip (columns df) (map json_of r)) (rows df))
      else Inl ValueError)"

section \<open>The script\<close>

text \<open>Lines 4 to 7, from the loaded frame to the document written. An exception of a step
  is not caught: it ends the run and is the result.\<close>

definition data_preprocess :: "rat dataframe \<Rightarrow> error + rat json_object list" where
  "data_preprocess df0 =
     (case getitem df0 columns_for_viz of
        Inl e \<Rightarrow> Inl e
      | Inr df \<Rightarrow>
          (case dropna df dropna_subset of
             Inl e \<Rightarrow> Inl e
           | Inr df_clean \<Rightarrow> to_json df_clean))"

section \<open>The loaded frame\<close>

text \<open>
  Line 3, \<^verbatim>\<open>pd.read_csv(path)\<close> with its defaults, is where the model starts: the frame it
  returns is the input of \<open>data_preprocess\<close>. Reading the file is library code and I/O; what
  the script relies on is what every frame that \<^verbatim>\<open>read_csv\<close> returns has:
  \<^item> the column labels are pairwise different (a repeated header name is renamed
    \<^verbatim>\<open>X.1\<close>, \<^verbatim>\<open>X.2\<close>, ...);
  \<^item> every row has one cell per column (a short line is padded with missing cells).
\<close>

definition loaded :: "'n dataframe \<Rightarrow> bool" where
  "loaded df =
     (distinct (columns df) \<and> list_all (\<lambda>r. length r = length (columns df)) (rows df))"

section \<open>The vocabulary of the properties\<close>

text \<open>A row read as a mapping from column label to cell, under the labels of its frame.\<close>

definition row_map :: "string list \<Rightarrow> 'n cell list \<Rightarrow> string \<Rightarrow> 'n cell option" where
  "row_map labels r = map_of (zip labels r)"

text \<open>The null check on a row: each of the checked columns holds a value that is not
  missing.\<close>

definition non_null_in :: "string list \<Rightarrow> string list \<Rightarrow> 'n cell list \<Rightarrow> bool" where
  "non_null_in labels checked r =
     list_all (\<lambda>c. case row_map labels r c of None \<Rightarrow> False | Some v \<Rightarrow> v \<noteq> NaN) checked"

text \<open>The record of an input row: the ten labels of \<open>columns_for_viz\<close>, each with the value
  the row holds for it.\<close>

definition record_of :: "string list \<Rightarrow> rat cell list \<Rightarrow> rat json_object" where
  "record_of labels r =
     map (\<lambda>c. (c, case row_map labels r c of None \<Rightarrow> JNull | Some v \<Rightarrow> json_of v)) columns_for_viz"

text \<open>The place in the output of the record of input row \<open>i\<close>: the number of rows before it
  that pass the null check of line 6.\<close>

definition output_position :: "string list \<Rightarrow> 'n cell list list \<Rightarrow> nat \<Rightarrow> nat" where
  "output_position labels rs i = length (filter (non_null_in labels dropna_subset) (take i rs))"

text \<open>The required-non-null set as the specification words it: the selection set without
  \<open>ConvertedCompYearly\<close> and \<open>AISelect\<close>, eight labels. It is not the list of line 6, which
  keeps \<open>AISelect\<close>.\<close>

definition required_non_null_spec :: "string list" where
  "required_non_null_spec =
     [''Age'', ''YearsCodePro'', ''Country'', ''Currency'', ''CompTotal'',
      ''LanguageHaveWorkedWith'', ''NEWCollabToolsHaveWorkedWith'', ''OpSysProfessional use'']"

text \<open>The position of the first occurrence of a label (\<^verbatim>\<open>Index.get_loc\<close> on an index without
  repeated labels); used in the proofs.\<close>

fun loc :: "string list \<Rightarrow> string \<Rightarrow> nat" where
  "loc [] c = 0"
| "loc (x # xs) c = (if x = c then 0 else Suc (loc xs c))"

section \<open>Sample frames\<close>

text \<open>Four answers under a header that has one more column than the script selects and
  lists \<open>Country\<close> before \<open>Age\<close>. The first answer has no \<open>ConvertedCompYearly\<close>, the second
  no \<open>Country\<close>, the fourth no \<open>AISelect\<close>.\<close>

definition survey_sample :: "rat dataframe" where
  "survey_sample =
     \<lparr>columns = [''ResponseId'', ''Country'', ''Age'', ''YearsCodePro'', ''Currency'', ''CompTotal'',
        ''ConvertedCompYearly'', ''LanguageHaveWorkedWith'', ''NEWCollabToolsHaveWorkedWith'',
        ''OpSysProfessional use'', ''AISelect''],
      rows =
       [[Number 1, Str ''USA'', Str ''25-34'', Str ''5'', Str ''USD'', Str ''90000'', NaN,
         Str ''Python'', Str ''VS Code'', Str ''Windows'', Str ''Yes''],
        [Number 2, NaN, Str ''35-44'', Str ''12'', Str ''EUR'', Str ''70000'', Number 75000,
         Str ''Rust'', Str ''Vim'', Str ''Ubuntu'', Str ''No''],
        [Number 3, Str ''Chile'', Str ''18-24'', Str ''1'', Str ''CLP'', Str ''12000000'', Number 13000,
         Str ''Go'', Str ''Neovim'', Str ''MacOS'', Str ''Yes''],
        [Number 4, Str ''Spain'', Str ''45-54'', Str ''20'', Str ''EUR'', Str ''50000'', Number 54000,
         Str ''SQL'', Str ''Emacs'', Str ''Debian'', NaN]]\<rparr>"

text \<open>Two answers in the order of \<open>columns_for_viz\<close>; the second has every cell but
  \<open>AISelect\<close>.\<close>

definition two_answers :: "rat dataframe" where
  "two_answers =
     \<lparr>columns = columns_for_viz,
      rows =
       [[Str ''25-34'', Str ''3'', Str ''Peru'', Str ''PEN'', Number 60000, Number 16000,
         Str ''Python'', Str ''VS Code'', Str ''Windows'', Str ''Yes''],
        [Str ''35-44'', Str ''9'', Str ''Japan'', Str ''JPY'', Number 7000000, Number 47000,
         Str ''C++'', Str ''CLion'', Str ''Fedora'', NaN]]\<rparr>"

text \<open>A header of an earlier survey, which has no \<open>AISelect\<close> column.\<close>

definition legacy_sample :: "rat dataframe" where
  "legacy_sample =
     \<lparr>columns = [''ResponseId'', ''Age'', ''YearsCodePro'', ''Country'', ''Currency'', ''CompTotal'',
        ''ConvertedCompYearly'', ''LanguageHaveWorkedWith'', ''NEWCollabToolsHaveWorkedWith'',
        ''OpSysProfessional use''],
      rows =
       [[Number 1, Str ''25-34'', Str ''5'', Str ''USA'', Str ''USD'', Number 90000, Number 90000,
         Str ''Python'', Str ''VS Code'', Str ''Windows'']]\<rparr>"




text \<open>The record of the scenario row: \<open>ConvertedCompYearly\<close> is \<open>null\<close>.\<close>

definition scenario_record :: "rat json_object" where
  "scenario_record =
     [(''Age'', JString ''25-34''), (''YearsCodePro'', JString ''5''), (''Country'', JString ''USA''),
      (''Currency'', JString ''USD''), (''CompTotal'', JString ''90000''),
      (''ConvertedCompYearly'', JNull), (''LanguageHaveWorkedWith'', JString ''Python''),
      (''NEWCollabToolsHaveWorkedWith'', JString ''VS Code''),
      (''OpSysProfessional use'', JString ''Windows''), (''AISelect'', JString ''Yes'')]"

section \<open>Lemmas about the frame operations\<close>

lemma loc_less: "c \<in> set labels \<Longrightarrow> loc labels c < length labels"
  by (induction labels) auto

lemma nth_loc: "c \<in> set labels \<Longrightarrow> labels ! loc labels c = c"
  by (induction labels) auto

lemma filter_eq_upt: "k < n \<Longrightarrow> filter (\<lambda>i. i = k) [0..<n] = [k]"
proof (induction n)
  case 0
  then show ?case by simp
next
  case (Suc n)
  show ?case
  proof (cases "k = n")
    case True
    have "filter (\<lambda>i. i = n) [0..<n] = []"
      by (simp add: filter_empty_conv)
    with True show ?thesis by simp
  next
    case False
    with Suc have "filter (\<lambda>i. i = k) [0..<n] = [k]" by simp
    with False show ?thesis by simp
  qed
qed

lemma positions_distinct:
  assumes "distinct labels" "c \<in> set labels"
  shows "filter (\<lambda>i. labels ! i = c) [0..<length labels] = [loc labels c]"
proof -
  let ?k = "loc labels c"
  have k: "?k < length labels" "labels ! ?k = c"
    using assms(2) by (simp_all add: loc_less nth_loc)
  have "filter (\<lambda>i. labels ! i = c) [0..<length labels] = filter (\<lambda>i. i = ?k) [0..<length labels]"
  proof (rule filter_cong[OF refl])
    fix i assume "i \<in> set [0..<length labels]"
    then have "i < length labels" by simp
    then show "(labels ! i = c) = (i = ?k)"
      using k assms(1) by (auto simp: nth_eq_iff_index_eq)
  qed
  also have "\<dots> = [?k]"
    using k(1) by (rule filter_eq_upt)
  finally show ?thesis .
qed

lemma get_indexer_for_distinct:
  assumes "distinct labels" "set targets \<subseteq> set labels"
  shows "get_indexer_for labels targets = map (loc labels) targets"
  using assms(2)
proof (induction targets)
  case Nil
  then show ?case by (simp add: get_indexer_for_def)
next
  case (Cons t ts)
  then have "get_indexer_for labels ts = map (loc labels) ts" by simp
  moreover have "filter (\<lambda>i. labels ! i = t) [0..<length labels] = [loc labels t]"
    using Cons.prems assms(1) by (simp add: positions_distinct)
  ultimately show ?case by (simp add: get_indexer_for_def)
qed

lemma row_map_loc:
  assumes "distinct labels" "length r = length labels" "c \<in> set labels"
  shows "row_map labels r c = Some (r ! loc labels c)"
  using map_of_zip_nth[of labels r "loc labels c"] assms
  by (simp add: row_map_def loc_less nth_loc)

lemma mask_select: "map fst (filter snd (zip xs (map P xs))) = filter P xs"
  by (induction xs) auto

lemma no_missing: "set key \<subseteq> set labels \<Longrightarrow> filter (\<lambda>k. k \<notin> set labels) key = []"
  by (auto simp: filter_empty_conv)

lemma getitem_distinct:
  assumes "distinct (columns df)" "set key \<subseteq> set (columns df)"
  shows "getitem df key =
           Inr \<lparr>columns = key,
                rows = map (\<lambda>r. map (\<lambda>c. r ! loc (columns df) c) key) (rows df)\<rparr>"
proof -
  have "map (\<lambda>i. columns df ! i) (map (loc (columns df)) key) = key"
    using assms(2) by (induction key) (simp_all add: nth_loc)
  then show ?thesis
    using assms
    by (simp add: getitem_def no_missing get_indexer_for_distinct take_columns_def comp_def)
qed

lemma getitem_missing:
  assumes "\<not> set key \<subseteq> set (columns df)"
  shows "getitem df key = Inl (KeyError (filter (\<lambda>k. k \<notin> set (columns df)) key))"
proof -
  have "filter (\<lambda>k. k \<notin> set (columns df)) key \<noteq> []"
    using assms by (auto simp: filter_empty_conv)
  then show ?thesis by (simp add: getitem_def)
qed

lemma dropna_distinct:
  assumes "distinct (columns df)" "set labels \<subseteq> set (columns df)"
  shows "dropna df labels =
           Inr (df\<lparr>rows := filter (\<lambda>r. list_all (\<lambda>c. notna (r ! loc (columns df) c)) labels) (rows df)\<rparr>)"
proof -
  have "dropna_mask df (map (loc (columns df)) labels) =
          map (\<lambda>r. list_all (\<lambda>c. notna (r ! loc (columns df) c)) labels) (rows df)"
    by (simp add: dropna_mask_def take_columns_def list_all_iff comp_def)
  then show ?thesis
    using assms
    by (simp add: dropna_def no_missing get_indexer_for_distinct mask_select)
qed

lemma distinct_columns_for_viz: "distinct columns_for_viz"
  by (simp add: columns_for_viz_def)

lemma dropna_subset_sub: "set dropna_subset \<subseteq> set columns_for_viz"
  by (simp add: columns_for_viz_def dropna_subset_def)

lemma loadedD:
  assumes "loaded df"
  shows "distinct (columns df)"
    and "r \<in> set (rows df) \<Longrightarrow> length r = length (columns df)"
  using assms by (auto simp: loaded_def list_all_iff)

lemma non_null_in_loc:
  assumes "distinct labels" "length r = length labels" "set checked \<subseteq> set labels"
  shows "non_null_in labels checked r = list_all (\<lambda>c. notna (r ! loc labels c)) checked"
proof -
  have "(case row_map labels r c of None \<Rightarrow> False | Some v \<Rightarrow> v \<noteq> NaN) = notna (r ! loc labels c)"
    if "c \<in> set checked" for c
  proof -
    have "row_map labels r c = Some (r ! loc labels c)"
      using assms that by (auto intro: row_map_loc)
    then show ?thesis by (cases "r ! loc labels c") (simp_all add: notna_def)
  qed
  then show ?thesis by (simp add: non_null_in_def list_all_iff)
qed

lemma record_of_loc:
  assumes "distinct labels" "length r = length labels" "set columns_for_viz \<subseteq> set labels"
  shows "record_of labels r = zip columns_for_viz (map (\<lambda>c. json_of (r ! loc labels c)) columns_for_viz)"
proof -
  have "row_map labels r c = Some (r ! loc labels c)" if "c \<in> set columns_for_viz" for c
    using assms that by (auto intro: row_map_loc)
  then have "record_of labels r = map (\<lambda>c. (c, json_of (r ! loc labels c))) columns_for_viz"
    by (simp add: record_of_def)
  also have "\<dots> = zip columns_for_viz (map (\<lambda>c. json_of (r ! loc labels c)) columns_for_viz)"
    by (simp add: zip_map2 zip_same_conv_map)
  finally show ?thesis .
qed

lemma data_preprocess_loaded:
  assumes "loaded df" "set columns_for_viz \<subseteq> set (columns df)"
  shows "data_preprocess df =
           Inr (map (record_of (columns df))
                  (filter (non_null_in (columns df) dropna_subset) (rows df)))"
proof -
  let ?h = "columns df"
  let ?proj = "\<lambda>r. map (\<lambda>c. r ! loc ?h c) columns_for_viz"
  let ?keep = "\<lambda>r'. list_all (\<lambda>c. notna (r' ! loc columns_for_viz c)) dropna_subset"
  note d = loadedD[OF assms(1)]
  have sub: "set dropna_subset \<subseteq> set ?h"
    using dropna_subset_sub assms(2) by blast
  have g: "getitem df columns_for_viz = Inr \<lparr>columns = columns_for_viz, rows = map ?proj (rows df)\<rparr>"
    using d(1) assms(2) by (rule getitem_distinct)
  have dr: "dropna \<lparr>columns = columns_for_viz, rows = map ?proj (rows df)\<rparr> dropna_subset =
              Inr \<lparr>columns = columns_for_viz, rows = filter ?keep (map ?proj (rows df))\<rparr>"
    using dropna_distinct[of "\<lparr>columns = columns_for_viz, rows = map ?proj (rows df)\<rparr>" dropna_subset]
    by (simp add: distinct_columns_for_viz dropna_subset_sub)
  have keep: "?keep (?proj r) = non_null_in ?h dropna_subset r" if "r \<in> set (rows df)" for r
  proof -
    have "?proj r ! loc columns_for_viz c = r ! loc ?h c" if "c \<in> set dropna_subset" for c
    proof -
      have "c \<in> set columns_for_viz" using that dropna_subset_sub by blast
      then show ?thesis by (simp add: loc_less nth_loc)
    qed
    then have "?keep (?proj r) = list_all (\<lambda>c. notna (r ! loc ?h c)) dropna_subset"
      by (simp add: list_all_iff)
    also have "\<dots> = non_null_in ?h dropna_subset r"
      using non_null_in_loc[OF d(1) d(2)[OF that] sub] by simp
    finally show ?thesis .
  qed
  have f: "filter ?keep (map ?proj (rows df)) = map ?proj (filter (non_null_in ?h dropna_subset) (rows df))"
    unfolding filter_map by (rule arg_cong[where f="map ?proj"], rule filter_cong) (simp_all add: keep)
  have r: "zip columns_for_viz (map json_of (?proj r)) = record_of ?h r" if "r \<in> set (rows df)" for r
    using record_of_loc[OF d(1) d(2)[OF that] assms(2)] by (simp add: comp_def)
  have "data_preprocess df =
          Inr (map (\<lambda>r'. zip columns_for_viz (map json_of r')) (filter ?keep (map ?proj (rows df))))"
    by (simp add: data_preprocess_def g dr to_json_def distinct_columns_for_viz)
  also have "\<dots> = Inr (map (\<lambda>r. zip columns_for_viz (map json_of (?proj r)))
                         (filter (non_null_in ?h dropna_subset) (rows df)))"
    by (simp add: f comp_def)
  also have "\<dots> = Inr (map (record_of ?h) (filter (non_null_in ?h dropna_subset) (rows df)))"
    by (rule arg_cong[where f=Inr], rule map_cong) (simp_all add: r del: map_map)
  finally show ?thesis .
qed

lemma nth_filter_position:
  assumes "i < length xs" "P (xs ! i)"
  shows "length (filter P (take i xs)) < length (filter P xs)"
    and "filter P xs ! length (filter P (take i xs)) = xs ! i"
proof -
  have "xs = take i xs @ xs ! i # drop (Suc i) xs"
    using assms(1) by (rule id_take_nth_drop)
  then have "filter P xs = filter P (take i xs) @ xs ! i # filter P (drop (Suc i) xs)"
    using assms(2) by (metis filter.simps(2) filter_append)
  then show "length (filter P (take i xs)) < length (filter P xs)"
    and "filter P xs ! length (filter P (take i xs)) = xs ! i"
    by simp_all
qed

lemma filter_position_mono:
  assumes "i < j" "j \<le> length xs" "P (xs ! i)"
  shows "length (filter P (take i xs)) < length (filter P (take j xs))"
proof -
  have "i < length (take j xs)" using assms(1,2) by simp
  moreover have "P (take j xs ! i)" using assms(1,3) by simp
  ultimately have "length (filter P (take i (take j xs))) < length (filter P (take j xs))"
    by (rule nth_filter_position(1))
  moreover have "take i (take j xs) = take i xs"
    using assms(1) by (simp add: min_def)
  ultimately show ?thesis by simp
qed

lemma length_filter_eq_iff: "length (filter P xs) = length xs \<longleftrightarrow> (\<forall>x\<in>set xs. P x)"
proof (induction xs)
  case Nil
  then show ?case by simp
next
  case (Cons x xs)
  have le: "length (filter P xs) \<noteq> Suc (length xs)"
    using length_filter_le[of P xs] by linarith
  show ?case
  proof (cases "P x")
    case True
    with Cons show ?thesis by simp
  next
    case False
    with le show ?thesis by simp
  qed
qed





lemma loaded_getitem:
  assumes "loaded df" "distinct key" "set key \<subseteq> set (columns df)" "getitem df key = Inr out"
  shows "loaded out"
proof -
  have "out = \<lparr>columns = key, rows = map (\<lambda>r. map (\<lambda>c. r ! loc (columns df) c) key) (rows df)\<rparr>"
    using getitem_distinct[OF loadedD(1)[OF assms(1)] assms(3)] assms(4) by simp
  then show ?thesis
    using assms(2) by (simp add: loaded_def list_all_iff)
qed

section \<open>The properties\<close>

subsection \<open>The columns the filter requires\<close>




subsection \<open>The rows the filter retains\<close>




subsection \<open>The number of records\<close>

text \<open>
  C3, as stated: the output has as many records as the input has rows exactly when no row
  misses a value in one of the eight required columns. In \<open>two_answers\<close> every row holds a
  value in each of the eight, and the output has one record for two rows: the second row
  misses \<open>AISelect\<close>.
\<close>

theorem spec_count_equality_counterexample:
  "loaded two_answers \<and> set columns_for_viz \<subseteq> set (columns two_answers) \<and>
   list_all (non_null_in (columns two_answers) required_non_null_spec) (rows two_answers) \<and>
   length (rows two_answers) = 2 \<and>
   data_preprocess two_answers = Inr [record_of (columns two_answers) (rows two_answers ! 0)]"
  by code_simp

text \<open>
  C3, amended: for a loaded frame whose header has the ten columns, the script writes at
  most as many records as the frame has rows, and as many exactly when no row misses a value
  in one of the nine columns of line 6 (the eight and \<open>AISelect\<close>).
\<close>

theorem record_count_le_row_count:
  assumes "loaded df" and "set columns_for_viz \<subseteq> set (columns df)"
  shows "\<exists>recs. data_preprocess df = Inr recs \<and> length recs \<le> length (rows df) \<and>
           (length recs = length (rows df) \<longleftrightarrow>
              (\<forall>r\<in>set (rows df). non_null_in (columns df) dropna_subset r))"
proof -
  let ?recs = "map (record_of (columns df)) (filter (non_null_in (columns df) dropna_subset) (rows df))"
  have "data_preprocess df = Inr ?recs"
    using assms by (rule data_preprocess_loaded)
  moreover have "length ?recs \<le> length (rows df)"
    by simp
  moreover have "length ?recs = length (rows df) \<longleftrightarrow>
                   (\<forall>r\<in>set (rows df). non_null_in (columns df) dropna_subset r)"
    by (simp add: length_filter_eq_iff)
  ultimately show ?thesis by blast
qed

theorem record_count_le_row_count_witness:
  "loaded two_answers \<and> set columns_for_viz \<subseteq> set (columns two_answers) \<and>
   \<not> non_null_in (columns two_answers) dropna_subset (rows two_answers ! 1) \<and>
   (\<exists>recs. data_preprocess two_answers = Inr recs \<and> length recs < length (rows two_answers))"
proof -
  have h1: "loaded two_answers" by code_simp
  have h2: "set columns_for_viz \<subseteq> set (columns two_answers)" by code_simp
  have h3: "\<not> non_null_in (columns two_answers) dropna_subset (rows two_answers ! 1)" by code_simp
  have h4: "rows two_answers ! 1 \<in> set (rows two_answers)" by code_simp
  from record_count_le_row_count[OF h1 h2]
  obtain recs where recs: "data_preprocess two_answers = Inr recs"
    "length recs \<le> length (rows two_answers)"
    "length recs = length (rows two_answers) \<longleftrightarrow>
       (\<forall>r\<in>set (rows two_answers). non_null_in (columns two_answers) dropna_subset r)"
    by blast
  from recs(3) h3 h4 have "length recs \<noteq> length (rows two_answers)" by blast
  with recs(2) have "length recs < length (rows two_answers)" by simp
  with h1 h2 h3 recs(1) show ?thesis by blast
qed

subsection \<open>The order of the records\<close>

text \<open>
  C4: for a loaded frame whose header has the ten columns, if row \<open>i\<close> precedes row \<open>j\<close> and
  both pass the null check of line 6, then the record of row \<open>i\<close> stands in the output before
  the record of row \<open>j\<close>: each at its \<open>output_position\<close>, and the first position is the
  smaller.
\<close>

theorem output_keeps_row_order:
  assumes "loaded df" and "set columns_for_viz \<subseteq> set (columns df)"
    and "i < j" and "j < length (rows df)"
    and "non_null_in (columns df) dropna_subset (rows df ! i)"
    and "non_null_in (columns df) dropna_subset (rows df ! j)"
  shows "\<exists>recs. data_preprocess df = Inr recs \<and>
           output_position (columns df) (rows df) i < output_position (columns df) (rows df) j \<and>
           output_position (columns df) (rows df) j < length recs \<and>
           recs ! output_position (columns df) (rows df) i = record_of (columns df) (rows df ! i) \<and>
           recs ! output_position (columns df) (rows df) j = record_of (columns df) (rows df ! j)"
proof -
  let ?P = "non_null_in (columns df) dropna_subset"
  let ?kept = "filter ?P (rows df)"
  let ?pos = "output_position (columns df) (rows df)"
  have i: "i < length (rows df)" using assms(3,4) by simp
  have out: "data_preprocess df = Inr (map (record_of (columns df)) ?kept)"
    using assms(1,2) by (rule data_preprocess_loaded)
  have pi: "?pos i < length ?kept" "?kept ! ?pos i = rows df ! i"
    unfolding output_position_def using nth_filter_position[of i "rows df" ?P, OF i assms(5)] by simp_all
  have pj: "?pos j < length ?kept" "?kept ! ?pos j = rows df ! j"
    unfolding output_position_def using nth_filter_position[of j "rows df" ?P, OF assms(4) assms(6)] by simp_all
  have lt: "?pos i < ?pos j"
    unfolding output_position_def
    using filter_position_mono[of i j "rows df" ?P] assms(3,4,5) by simp
  from out pi pj lt show ?thesis by simp
qed

theorem output_keeps_row_order_witness:
  "loaded survey_sample \<and> set columns_for_viz \<subseteq> set (columns survey_sample) \<and>
   (0::nat) < 2 \<and> 2 < length (rows survey_sample) \<and>
   non_null_in (columns survey_sample) dropna_subset (rows survey_sample ! 0) \<and>
   non_null_in (columns survey_sample) dropna_subset (rows survey_sample ! 2) \<and>
   output_position (columns survey_sample) (rows survey_sample) 0 = 0 \<and>
   output_position (columns survey_sample) (rows survey_sample) 2 = 1 \<and>
   (\<exists>recs. data_preprocess survey_sample = Inr recs \<and>
      recs ! 0 = record_of (columns survey_sample) (rows survey_sample ! 0) \<and>
      recs ! 1 = record_of (columns survey_sample) (rows survey_sample ! 2))"
proof -
  have h1: "loaded survey_sample" by code_simp
  have h2: "set columns_for_viz \<subseteq> set (columns survey_sample)" by code_simp
  have h3: "(0::nat) < 2" by simp
  have h4: "2 < length (rows survey_sample)" by code_simp
  have h5: "non_null_in (columns survey_sample) dropna_subset (rows survey_sample ! 0)" by code_simp
  have h6: "non_null_in (columns survey_sample) dropna_subset (rows survey_sample ! 2)" by code_simp
  have p0: "output_position (columns survey_sample) (rows survey_sample) 0 = 0" by code_simp
  have p2: "output_position (columns survey_sample) (rows survey_sample) 2 = 1" by code_simp
  from output_keeps_row_order[OF h1 h2 h3 h4 h5 h6]
  have "\<exists>recs. data_preprocess survey_sample = Inr recs \<and>
      recs ! 0 = record_of (columns survey_sample) (rows survey_sample ! 0) \<and>
      recs ! 1 = record_of (columns survey_sample) (rows survey_sample ! 2)"
    unfolding p0 p2 by blast
  with h1 h2 h3 h4 h5 h6 p0 p2 show ?thesis by blast
qed

subsection \<open>The keys of a record\<close>

lemma keys_record_of: "map fst (record_of labels r) = columns_for_viz"
  by (simp add: record_of_def comp_def)

text \<open>
  C5: for a loaded frame whose header has the ten columns, the script writes a document, and
  the keys of every record in it are the ten labels of \<open>columns_for_viz\<close>, each once, in
  that order.
\<close>

theorem records_have_the_ten_keys:
  assumes "loaded df" and "set columns_for_viz \<subseteq> set (columns df)"
  shows "(\<exists>recs. data_preprocess df = Inr recs \<and> (\<forall>rec\<in>set recs. map fst rec = columns_for_viz)) \<and>
         length columns_for_viz = 10 \<and> distinct columns_for_viz"
proof -
  let ?recs = "map (record_of (columns df)) (filter (non_null_in (columns df) dropna_subset) (rows df))"
  have "data_preprocess df = Inr ?recs"
    using assms by (rule data_preprocess_loaded)
  moreover have "\<forall>rec\<in>set ?recs. map fst rec = columns_for_viz"
    by (auto simp: keys_record_of)
  moreover have "length columns_for_viz = 10"
    by (simp add: columns_for_viz_def)
  ultimately show ?thesis
    using distinct_columns_for_viz by blast
qed

theorem records_have_the_ten_keys_witness:
  "loaded survey_sample \<and> set columns_for_viz \<subseteq> set (columns survey_sample) \<and>
   (\<exists>recs. data_preprocess survey_sample = Inr recs \<and> length recs = 2 \<and>
      map fst (recs ! 0) = columns_for_viz \<and> map fst (recs ! 1) = columns_for_viz)"
proof -
  have h1: "loaded survey_sample" by code_simp
  have h2: "set columns_for_viz \<subseteq> set (columns survey_sample)" by code_simp
  have ev: "data_preprocess survey_sample =
              Inr [record_of (columns survey_sample) (rows survey_sample ! 0),
                   record_of (columns survey_sample) (rows survey_sample ! 2)]"
    by code_simp
  from records_have_the_ten_keys[OF h1 h2]
  obtain recs where recs: "data_preprocess survey_sample = Inr recs"
    "\<forall>rec\<in>set recs. map fst rec = columns_for_viz"
    by blast
  from recs(1) ev have len: "length recs = 2" by auto
  then have "recs ! 0 \<in> set recs" "recs ! 1 \<in> set recs" by simp_all
  with recs(2) have "map fst (recs ! 0) = columns_for_viz" "map fst (recs ! 1) = columns_for_viz"
    by blast+
  with h1 h2 recs(1) len show ?thesis by blast
qed

subsection \<open>The projection\<close>

text \<open>
  C6: on a loaded frame, \<^verbatim>\<open>df[columns_for_viz]\<close> returns, when the header has the ten
  columns, a frame whose columns are \<open>columns_for_viz\<close> in that order, with one row of ten
  cells for each row of the input, holding under each label what the input row holds under
  it; it raises exactly when a label is absent from the header, the exception is a
  \<open>KeyError\<close> with the absent labels, and it is the result of the script.
\<close>

theorem getitem_projects_or_raises_KeyError:
  assumes "loaded df"
  shows "(set columns_for_viz \<subseteq> set (columns df) \<longrightarrow>
            (\<exists>out. getitem df columns_for_viz = Inr out \<and> columns out = columns_for_viz \<and>
               length (rows out) = length (rows df) \<and>
               (\<forall>i<length (rows df). length (rows out ! i) = 10 \<and>
                  (\<forall>c\<in>set columns_for_viz.
                     row_map columns_for_viz (rows out ! i) c = row_map (columns df) (rows df ! i) c)))) \<and>
         ((\<exists>e. getitem df columns_for_viz = Inl e) \<longleftrightarrow> \<not> set columns_for_viz \<subseteq> set (columns df)) \<and>
         (\<not> set columns_for_viz \<subseteq> set (columns df) \<longrightarrow>
            getitem df columns_for_viz =
              Inl (KeyError (filter (\<lambda>k. k \<notin> set (columns df)) columns_for_viz)) \<and>
            data_preprocess df =
              Inl (KeyError (filter (\<lambda>k. k \<notin> set (columns df)) columns_for_viz)))"
proof (cases "set columns_for_viz \<subseteq> set (columns df)")
  case True
  let ?h = "columns df"
  let ?proj = "\<lambda>r. map (\<lambda>c. r ! loc ?h c) columns_for_viz"
  let ?out = "\<lparr>columns = columns_for_viz, rows = map ?proj (rows df)\<rparr>"
  note d = loadedD[OF assms]
  have g: "getitem df columns_for_viz = Inr ?out"
    using d(1) True by (rule getitem_distinct)
  have cells: "length (rows ?out ! i) = 10 \<and>
                 (\<forall>c\<in>set columns_for_viz.
                    row_map columns_for_viz (rows ?out ! i) c = row_map ?h (rows df ! i) c)"
    if i: "i < length (rows df)" for i
  proof -
    have r: "rows df ! i \<in> set (rows df)" using i by simp
    have len: "length (?proj (rows df ! i)) = 10"
      by (simp add: columns_for_viz_def)
    have "row_map columns_for_viz (?proj (rows df ! i)) c = row_map ?h (rows df ! i) c"
      if c: "c \<in> set columns_for_viz" for c
    proof -
      have "row_map columns_for_viz (?proj (rows df ! i)) c =
              Some (?proj (rows df ! i) ! loc columns_for_viz c)"
        using distinct_columns_for_viz _ c by (rule row_map_loc) simp
      also have "\<dots> = Some (rows df ! i ! loc ?h c)"
        using c by (simp add: loc_less nth_loc)
      also have "\<dots> = row_map ?h (rows df ! i) c"
        using row_map_loc[OF d(1) d(2)[OF r], of c] c True by auto
      finally show ?thesis .
    qed
    with len i show ?thesis by simp
  qed
  have "\<exists>out. getitem df columns_for_viz = Inr out \<and> columns out = columns_for_viz \<and>
               length (rows out) = length (rows df) \<and>
               (\<forall>i<length (rows df). length (rows out ! i) = 10 \<and>
                  (\<forall>c\<in>set columns_for_viz.
                     row_map columns_for_viz (rows out ! i) c = row_map (columns df) (rows df ! i) c))"
    using g cells by (intro exI[of _ ?out]) simp
  moreover have "\<not> (\<exists>e. getitem df columns_for_viz = Inl e)"
    using g by simp
  ultimately show ?thesis using True by blast
next
  case False
  let ?e = "KeyError (filter (\<lambda>k. k \<notin> set (columns df)) columns_for_viz)"
  have g: "getitem df columns_for_viz = Inl ?e"
    using False by (rule getitem_missing)
  then have "data_preprocess df = Inl ?e"
    by (simp add: data_preprocess_def)
  with g False show ?thesis by simp
qed

theorem getitem_projects_or_raises_KeyError_witness:
  "loaded survey_sample \<and> set columns_for_viz \<subseteq> set (columns survey_sample) \<and>
   (\<exists>out. getitem survey_sample columns_for_viz = Inr out \<and> columns out = columns_for_viz \<and>
      length (rows out) = 4) \<and>
   loaded legacy_sample \<and> \<not> set columns_for_viz \<subseteq> set (columns legacy_sample) \<and>
   getitem legacy_sample columns_for_viz = Inl (KeyError [''AISelect'']) \<and>
   data_preprocess legacy_sample = Inl (KeyError [''AISelect''])"
proof -
  have h1: "loaded survey_sample" by code_simp
  have h2: "set columns_for_viz \<subseteq> set (columns survey_sample)" by code_simp
  have h3: "length (rows survey_sample) = 4" by code_simp
  have k1: "loaded legacy_sample" by code_simp
  have k2: "\<not> set columns_for_viz \<subseteq> set (columns legacy_sample)" by code_simp
  have k3: "filter (\<lambda>k. k \<notin> set (columns legacy_sample)) columns_for_viz = [''AISelect'']"
    by code_simp
  from getitem_projects_or_raises_KeyError[OF h1] h2 h3
  have a: "\<exists>out. getitem survey_sample columns_for_viz = Inr out \<and> columns out = columns_for_viz \<and>
      length (rows out) = 4"
    by auto
  from getitem_projects_or_raises_KeyError[OF k1] k2 k3
  have b: "getitem legacy_sample columns_for_viz = Inl (KeyError [''AISelect'']) \<and>
   data_preprocess legacy_sample = Inl (KeyError [''AISelect''])"
    by auto
  from h1 h2 a k1 k2 b show ?thesis by blast
qed

subsection \<open>The length of the document\<close>

text \<open>
  C7, as stated: the document read back has as many records as the input has rows that hold
  a value in each of the eight required columns. \<open>survey_sample\<close> has three such rows, and
  the document has two records.
\<close>

theorem spec_round_trip_counterexample:
  "loaded survey_sample \<and> set columns_for_viz \<subseteq> set (columns survey_sample) \<and>
   length (filter (non_null_in (columns survey_sample) required_non_null_spec) (rows survey_sample)) = 3 \<and>
   data_preprocess survey_sample =
     Inr [record_of (columns survey_sample) (rows survey_sample ! 0),
          record_of (columns survey_sample) (rows survey_sample ! 2)]"
  by code_simp

text \<open>
  C7, amended: for a loaded frame whose header has the ten columns, the document the script
  writes has as many records as the frame has rows that hold a value in each of the nine
  columns of line 6 (the eight and \<open>AISelect\<close>).
\<close>

theorem document_length_is_complete_row_count:
  assumes "loaded df" and "set columns_for_viz \<subseteq> set (columns df)"
  shows "\<exists>recs. data_preprocess df = Inr recs \<and>
           length recs = length (filter (non_null_in (columns df) dropna_subset) (rows df))"
  using data_preprocess_loaded[OF assms] by simp

theorem document_length_is_complete_row_count_witness:
  "loaded survey_sample \<and> set columns_for_viz \<subseteq> set (columns survey_sample) \<and>
   length (filter (non_null_in (columns survey_sample) dropna_subset) (rows survey_sample)) = 2 \<and>
   (\<exists>recs. data_preprocess survey_sample = Inr recs \<and> length recs = 2)"
proof -
  have h1: "loaded survey_sample" by code_simp
  have h2: "set columns_for_viz \<subseteq> set (columns survey_sample)" by code_simp
  have n: "length (filter (non_null_in (columns survey_sample) dropna_subset) (rows survey_sample)) = 2"
    by code_simp
  from document_length_is_complete_row_count[OF h1 h2]
  have "\<exists>recs. data_preprocess survey_sample = Inr recs \<and> length recs = 2"
    unfolding n .
  with h1 h2 n show ?thesis by blast
qed

subsection \<open>The scenario row\<close>

text \<open>
  C8: a row of a loaded frame with \<open>Age\<close> 25-34, \<open>YearsCodePro\<close> 5, \<open>Country\<close> USA,
  \<open>Currency\<close> USD, \<open>CompTotal\<close> 90000, no \<open>ConvertedCompYearly\<close>, \<open>LanguageHaveWorkedWith\<close>
  Python, \<open>NEWCollabToolsHaveWorkedWith\<close> VS Code, \<open>OpSysProfessional use\<close> Windows and
  \<open>AISelect\<close> Yes is retained: its record is in the output, and \<open>ConvertedCompYearly\<close> is
  \<open>null\<close> in it.
\<close>

theorem scenario_row_is_retained:
  assumes "loaded df" and "set columns_for_viz \<subseteq> set (columns df)" and "r \<in> set (rows df)"
    and "row_map (columns df) r ''Age'' = Some (Str ''25-34'')"
    and "row_map (columns df) r ''YearsCodePro'' = Some (Str ''5'')"
    and "row_map (columns df) r ''Country'' = Some (Str ''USA'')"
    and "row_map (columns df) r ''Currency'' = Some (Str ''USD'')"
    and "row_map (columns df) r ''CompTotal'' = Some (Str ''90000'')"
    and "row_map (columns df) r ''ConvertedCompYearly'' = Some NaN"
    and "row_map (columns df) r ''LanguageHaveWorkedWith'' = Some (Str ''Python'')"
    and "row_map (columns df) r ''NEWCollabToolsHaveWorkedWith'' = Some (Str ''VS Code'')"
    and "row_map (columns df) r ''OpSysProfessional use'' = Some (Str ''Windows'')"
    and "row_map (columns df) r ''AISelect'' = Some (Str ''Yes'')"
  shows "\<exists>recs. data_preprocess df = Inr recs \<and> record_of (columns df) r \<in> set recs \<and>
           record_of (columns df) r = scenario_record \<and>
           map_of (record_of (columns df) r) ''ConvertedCompYearly'' = Some JNull"
proof -
  let ?h = "columns df"
  have out: "data_preprocess df =
               Inr (map (record_of ?h) (filter (non_null_in ?h dropna_subset) (rows df)))"
    using assms(1,2) by (rule data_preprocess_loaded)
  have keep: "non_null_in ?h dropna_subset r"
    using assms(4-13) by (simp add: non_null_in_def dropna_subset_def)
  have rec: "record_of ?h r = scenario_record"
    using assms(4-13) by (simp add: record_of_def columns_for_viz_def scenario_record_def)
  have null: "map_of scenario_record ''ConvertedCompYearly'' = Some JNull"
    by (simp add: scenario_record_def)
  have "record_of ?h r \<in> set (map (record_of ?h) (filter (non_null_in ?h dropna_subset) (rows df)))"
    using keep assms(3) by simp
  with out rec null show ?thesis by simp
qed

theorem scenario_row_is_retained_witness:
  "loaded survey_sample \<and> set columns_for_viz \<subseteq> set (columns survey_sample) \<and>
   rows survey_sample ! 0 \<in> set (rows survey_sample) \<and>
   map (row_map (columns survey_sample) (rows survey_sample ! 0)) columns_for_viz =
     [Some (Str ''25-34''), Some (Str ''5''), Some (Str ''USA''), Some (Str ''USD''),
      Some (Str ''90000''), Some NaN, Some (Str ''Python''), Some (Str ''VS Code''),
      Some (Str ''Windows''), Some (Str ''Yes'')] \<and>
   (\<exists>recs. data_preprocess survey_sample = Inr recs \<and> scenario_record \<in> set recs \<and>
      map_of scenario_record ''ConvertedCompYearly'' = Some JNull)"
proof -
  let ?h = "columns survey_sample"
  let ?r = "rows survey_sample ! 0"
  have h1: "loaded survey_sample" by code_simp
  have h2: "set columns_for_viz \<subseteq> set ?h" by code_simp
  have h3: "?r \<in> set (rows survey_sample)" by code_simp
  have c1: "row_map ?h ?r ''Age'' = Some (Str ''25-34'')" by code_simp
  have c2: "row_map ?h ?r ''YearsCodePro'' = Some (Str ''5'')" by code_simp
  have c3: "row_map ?h ?r ''Country'' = Some (Str ''USA'')" by code_simp
  have c4: "row_map ?h ?r ''Currency'' = Some (Str ''USD'')" by code_simp
  have c5: "row_map ?h ?r ''CompTotal'' = Some (Str ''90000'')" by code_simp
  have c6: "row_map ?h ?r ''ConvertedCompYearly'' = Some NaN" by code_simp
  have c7: "row_map ?h ?r ''LanguageHaveWorkedWith'' = Some (Str ''Python'')" by code_simp
  have c8: "row_map ?h ?r ''NEWCollabToolsHaveWorkedWith'' = Some (Str ''VS Code'')" by code_simp
  have c9: "row_map ?h ?r ''OpSysProfessional use'' = Some (Str ''Windows'')" by code_simp
  have c10: "row_map ?h ?r ''AISelect'' = Some (Str ''Yes'')" by code_simp
  have cells: "map (row_map ?h ?r) columns_for_viz =
     [Some (Str ''25-34''), Some (Str ''5''), Some (Str ''USA''), Some (Str ''USD''),
      Some (Str ''90000''), Some NaN, Some (Str ''Python''), Some (Str ''VS Code''),
      Some (Str ''Windows''), Some (Str ''Yes'')]"
    unfolding columns_for_viz_def list.map c1 c2 c3 c4 c5 c6 c7 c8 c9 c10 by (rule refl)
  from scenario_row_is_retained[OF h1 h2 h3 c1 c2 c3 c4 c5 c6 c7 c8 c9 c10]
  have "\<exists>recs. data_preprocess survey_sample = Inr recs \<and> scenario_record \<in> set recs \<and>
      map_of scenario_record ''ConvertedCompYearly'' = Some JNull"
    by auto
  with h1 h2 h3 cells show ?thesis by blast
qed

subsection \<open>The values of a record\<close>








subsection \<open>Filtering twice\<close>

lemma dropna_present:
  assumes "set labels \<subseteq> set (columns df)"
  shows "dropna df labels =
           Inr (df\<lparr>rows := filter (\<lambda>r. list_all notna (map (\<lambda>i. r ! i) (get_indexer_for (columns df) labels)))
                             (rows df)\<rparr>)"
proof -
  have "dropna_mask df ixs = map (\<lambda>r. list_all notna (map (\<lambda>i. r ! i) ixs)) (rows df)" for ixs
    by (simp add: dropna_mask_def take_columns_def comp_def)
  then show ?thesis
    using assms by (simp add: dropna_def no_missing mask_select)
qed

lemma dropna_absent:
  assumes "\<not> set labels \<subseteq> set (columns df)"
  shows "dropna df labels = Inl (KeyError (filter (\<lambda>k. k \<notin> set (columns df)) labels))"
proof -
  have "filter (\<lambda>k. k \<notin> set (columns df)) labels \<noteq> []"
    using assms by (auto simp: filter_empty_conv)
  then show ?thesis by (simp add: dropna_def)
qed

text \<open>
  C10: for every frame and every list of checked labels, \<^verbatim>\<open>dropna\<close> applied to its own
  result gives that result again (and a \<open>KeyError\<close> of the first application is the
  outcome either way).
\<close>

theorem dropna_idempotent:
  "(case dropna df labels of Inl e \<Rightarrow> Inl e | Inr df_clean \<Rightarrow> dropna df_clean labels) = dropna df labels"
proof (cases "set labels \<subseteq> set (columns df)")
  case True
  let ?keep = "\<lambda>r. list_all notna (map (\<lambda>i. r ! i) (get_indexer_for (columns df) labels))"
  let ?once = "df\<lparr>rows := filter ?keep (rows df)\<rparr>"
  have one: "dropna df labels = Inr ?once"
    using True by (rule dropna_present)
  have "set labels \<subseteq> set (columns ?once)" using True by simp
  then have "dropna ?once labels =
               Inr (?once\<lparr>rows := filter (\<lambda>r. list_all notna (map (\<lambda>i. r ! i) (get_indexer_for (columns ?once) labels)))
                                     (rows ?once)\<rparr>)"
    by (rule dropna_present)
  also have "\<dots> = Inr ?once"
    by simp
  finally show ?thesis by (simp add: one)
next
  case False
  then show ?thesis by (simp add: dropna_absent)
qed

theorem dropna_idempotent_witness:
  "dropna survey_sample dropna_subset =
     Inr (survey_sample\<lparr>rows := [rows survey_sample ! 0, rows survey_sample ! 2]\<rparr>) \<and>
   dropna (survey_sample\<lparr>rows := [rows survey_sample ! 0, rows survey_sample ! 2]\<rparr>) dropna_subset =
     Inr (survey_sample\<lparr>rows := [rows survey_sample ! 0, rows survey_sample ! 2]\<rparr>)"
proof -
  have ev: "dropna survey_sample dropna_subset =
              Inr (survey_sample\<lparr>rows := [rows survey_sample ! 0, rows survey_sample ! 2]\<rparr>)"
    by code_simp
  from dropna_idempotent[where df=survey_sample and labels=dropna_subset]
  have "dropna (survey_sample\<lparr>rows := [rows survey_sample ! 0, rows survey_sample ! 2]\<rparr>) dropna_subset =
     Inr (survey_sample\<lparr>rows := [rows survey_sample ! 0, rows survey_sample ! 2]\<rparr>)"
    unfolding ev by simp
  with ev show ?thesis by blast
qed

end
